theory Spec2Isabelle
  imports Complex_Main "HOL-Library.Multiset"
begin

section \<open>The counter store of \<^verbatim>\<open>src/index.js\<close>\<close>

text \<open>
  The bot keeps its message tally in the module-level object \<^verbatim>\<open>leaderboard\<close>, keyed by
  the author's id. The object is modelled as an association list in the object's own
  property order: a property assigned for the first time goes to the end, an assignment
  to an existing property keeps its place. (User ids are platform snowflakes, decimal
  strings above \<open>2^32\<close>, so none of them is an array index or a name inherited from
  \<^verbatim>\<open>Object.prototype\<close>, and property order is insertion order.) Counts are JavaScript
  numbers, that is doubles; the snapshot holds integers, so a count is an integer-valued
  double, written as the \<open>int\<close> it equals.
\<close>

type_synonym user_id = string
type_synonym tally = "(user_id \<times> int) list"

text \<open>\<^verbatim>\<open>obj[k] = v\<close>.\<close>

fun set_prop :: "user_id \<Rightarrow> int \<Rightarrow> tally \<Rightarrow> tally" where
  "set_prop k v [] = [(k, v)]"
| "set_prop k v ((k', v') # ps) =
     (if k' = k then (k, v) # ps else (k', v') # set_prop k v ps)"

text \<open>
  \<^verbatim>\<open>c++\<close> on an integer-valued double \<open>c\<close>: the sum \<open>c + 1\<close> rounded to the nearest double,
  ties to the even mantissa. From \<open>-2^53\<close> up to \<open>2^53 - 1\<close> the sum is a double and
  the result is exact. From \<open>2^53\<close> on the doubles are two or more apart: where they are
  two apart the sum is a tie, which goes to \<open>c\<close> or to \<open>c + 2\<close>; further out it rounds
  back to \<open>c\<close>. So \<open>2^53\<close> stays \<open>2^53\<close>.
\<close>

definition js_increment :: "int \<Rightarrow> int" where
  "js_increment c =
     (if - (2 ^ 53) \<le> c \<and> c < 2 ^ 53 then c + 1
      else if 2 ^ 54 \<le> \<bar>c\<bar> then c
      else if even (\<bar>c\<bar> div 2) then c
      else c + 2)"

text \<open>
  Lines 819-820: \<^verbatim>\<open>if (!leaderboard[id]) leaderboard[id] = 0; leaderboard[id]++;\<close>.
  A missing property and the count 0 are both falsy. The property exists when the
  increment reads it, so the branch \<open>None\<close> of the second \<open>case\<close> is never taken.
\<close>

definition recordActivity :: "user_id \<Rightarrow> tally \<Rightarrow> tally" where
  "recordActivity u lb =
     (let lb1 = (case map_of lb u of
                   None \<Rightarrow> set_prop u 0 lb
                 | Some c \<Rightarrow> if c = 0 then set_prop u 0 lb else lb)
      in case map_of lb1 u of
           None \<Rightarrow> lb1
         | Some c \<Rightarrow> set_prop u (js_increment c) lb1)"

text \<open>
  What the process prints with \<^verbatim>\<open>console.log\<close> and \<^verbatim>\<open>console.error\<close>, as far as the
  modelled functions print.
\<close>

datatype log_line =
    FailedToSave
  | WinnerRoleNotFound
  | RemovedWinnerRole user_id
  | FailedToRemoveRole user_id
  | ErrorRemovingWinnerRole
  | GaveWinnerRole user_id
  | FailedToGiveWinnerRole user_id
  | LeaderboardChannelNotFound
  | SentAndReset
  | ErrorSendingLeaderboard

text \<open>What \<^verbatim>\<open>channel.send\<close> delivers to the leaderboard channel.\<close>

datatype announcement =
    NoMessagesRecorded
  | Winners "user_id list" "(user_id \<times> int) list" int

text \<open>
  The mutable state the counter store and the leaderboard cycle work on:
  \<^item> \<open>leaderboard\<close> and \<open>lastSave\<close> are the module variables of these names;
  \<^item> \<open>written\<close> is the history of \<^verbatim>\<open>leaderboard.json\<close>: one entry for each
    \<^verbatim>\<open>fs.writeFileSync\<close> that returned, the last one being the file's content;
  \<^item> \<open>winners\<close> are the members holding the role \<^verbatim>\<open>WINNER_ROLE_ID\<close> (\<^verbatim>\<open>role.members\<close>);
  \<^item> \<open>sent\<close> are the messages delivered to the leaderboard channel;
  \<^item> \<open>console\<close> is the log.
\<close>

record bot_state =
  leaderboard :: tally
  lastSave :: int
  written :: "tally list"
  winners :: "user_id list"
  sent :: "announcement list"
  console :: "log_line list"

text \<open>
  What one call of \<^verbatim>\<open>saveData\<close> meets outside the program: the clock read by the guard,
  whether \<^verbatim>\<open>fs.writeFileSync\<close> returns (or throws), and the clock read after the write.
\<close>

record fs_env =
  now_guard :: int
  write_ok :: bool
  now_stamp :: int

definition SAVE_INTERVAL :: int where
  "SAVE_INTERVAL = 30000"

text \<open>Lines 316-324.\<close>

definition saveData :: "bool \<Rightarrow> fs_env \<Rightarrow> bot_state \<Rightarrow> bot_state" where
  "saveData force e s =
     (if \<not> force \<and> now_guard e - lastSave s < SAVE_INTERVAL then s
      else if write_ok e
        then s\<lparr>written := written s @ [leaderboard s], lastSave := now_stamp e\<rparr>
        else s\<lparr>console := console s @ [FailedToSave]\<rparr>)"

text \<open>Lines 817-822: the counting handler of \<^verbatim>\<open>messageCreate\<close>.\<close>

record message =
  author_id :: user_id
  author_bot :: bool

definition count_message :: "fs_env \<Rightarrow> message \<Rightarrow> bot_state \<Rightarrow> bot_state" where
  "count_message e msg s =
     (if author_bot msg then s
      else saveData False e
             (s\<lparr>leaderboard := recordActivity (author_id msg) (leaderboard s)\<rparr>))"

text \<open>A run of the handler over the messages that arrive, in order.\<close>

fun count_messages :: "(fs_env \<times> message) list \<Rightarrow> bot_state \<Rightarrow> bot_state" where
  "count_messages [] s = s"
| "count_messages ((e, msg) # evs) s = count_messages evs (count_message e msg s)"

text \<open>The number of counted messages of user \<open>u\<close> in a run, and a user's count in a tally.\<close>

definition calls_for :: "user_id \<Rightarrow> (fs_env \<times> message) list \<Rightarrow> nat" where
  "calls_for u evs =
     length (filter (\<lambda>(e, msg). \<not> author_bot msg \<and> author_id msg = u) evs)"

definition count_of :: "tally \<Rightarrow> user_id \<Rightarrow> int" where
  "count_of lb u = (case map_of lb u of None \<Rightarrow> 0 | Some c \<Rightarrow> c)"

section \<open>The leaderboard cycle\<close>

subsection \<open>The ranked view\<close>

text \<open>
  \<^verbatim>\<open>Array.prototype.sort\<close> with a comparator is a stable sort: \<open>a\<close> goes before \<open>b\<close> when
  the comparator is negative, after \<open>b\<close> when it is positive, and equal elements keep
  their order. For a consistent comparator the result does not depend on the engine's
  algorithm; it is modelled as insertion sort from the right.
\<close>

fun insert_sorted :: "('a \<Rightarrow> 'a \<Rightarrow> int) \<Rightarrow> 'a \<Rightarrow> 'a list \<Rightarrow> 'a list" where
  "insert_sorted cmp x [] = [x]"
| "insert_sorted cmp x (y # ys) =
     (if cmp x y \<le> 0 then x # y # ys else y # insert_sorted cmp x ys)"

definition js_sort :: "('a \<Rightarrow> 'a \<Rightarrow> int) \<Rightarrow> 'a list \<Rightarrow> 'a list" where
  "js_sort cmp xs = foldr (insert_sorted cmp) xs []"

text \<open>Line 732: the comparator \<^verbatim>\<open>(a, b) => b[1] - a[1]\<close>.\<close>

definition by_count_desc :: "user_id \<times> int \<Rightarrow> user_id \<times> int \<Rightarrow> int" where
  "by_count_desc a b = snd b - snd a"

text \<open>Lines 731-733: \<^verbatim>\<open>Object.entries(leaderboard).sort(...).slice(0, 10)\<close>.\<close>

definition ranked :: "tally \<Rightarrow> (user_id \<times> int) list" where
  "ranked lb = take 10 (js_sort by_count_desc lb)"

subsection \<open>Role transfer, announcement and reset\<close>

text \<open>
  What a platform call that fetches something does: the promise rejects, resolves to
  nothing, or resolves to the object.
\<close>

datatype fetch = FetchThrows | FetchNull | FetchFound

text \<open>
  What one run of \<^verbatim>\<open>sendLeaderboard\<close> meets outside the program: the outcome of
  \<^verbatim>\<open>client.channels.fetch\<close>, of \<^verbatim>\<open>guild.roles.fetch\<close>, of \<^verbatim>\<open>member.roles.remove\<close> for each
  member, of \<^verbatim>\<open>channel.send\<close>, of \<^verbatim>\<open>guild.members.fetch\<close> for each user, of
  \<^verbatim>\<open>member.roles.add\<close>, and of the forced save. The run is taken as one step: what other
  handlers do while it awaits is not part of it.
\<close>

record cycle_env =
  channel_fetch :: fetch
  role_fetch :: fetch
  remove_ok :: "user_id \<Rightarrow> bool"
  send_ok :: bool
  member_fetch :: "user_id \<Rightarrow> fetch"
  add_ok :: bool
  save_env :: fs_env

text \<open>Lines 696-703: the loop over \<^verbatim>\<open>role.members\<close>, each removal in its own try.\<close>

fun strip_members :: "(user_id \<Rightarrow> bool) \<Rightarrow> user_id list \<Rightarrow> bot_state \<Rightarrow> bot_state" where
  "strip_members ok [] s = s"
| "strip_members ok (m # ms) s =
     strip_members ok ms
       (if ok m
        then s\<lparr>winners := removeAll m (winners s),
               console := console s @ [RemovedWinnerRole m]\<rparr>
        else s\<lparr>console := console s @ [FailedToRemoveRole m]\<rparr>)"

text \<open>Lines 689-707.\<close>

definition removeWinnerRole :: "cycle_env \<Rightarrow> bot_state \<Rightarrow> bot_state" where
  "removeWinnerRole e s =
     (case role_fetch e of
        FetchThrows \<Rightarrow> s\<lparr>console := console s @ [ErrorRemovingWinnerRole]\<rparr>
      | FetchNull \<Rightarrow> s\<lparr>console := console s @ [WinnerRoleNotFound]\<rparr>
      | FetchFound \<Rightarrow> strip_members (remove_ok e) (winners s) s)"

text \<open>Lines 709-718.\<close>

definition giveWinnerRole :: "cycle_env \<Rightarrow> user_id \<Rightarrow> bot_state \<Rightarrow> bot_state" where
  "giveWinnerRole e w s =
     (case member_fetch e w of
        FetchThrows \<Rightarrow> s\<lparr>console := console s @ [FailedToGiveWinnerRole w]\<rparr>
      | FetchNull \<Rightarrow> s
      | FetchFound \<Rightarrow>
          if add_ok e
          then s\<lparr>winners := (if w \<in> set (winners s) then winners s else winners s @ [w]),
                 console := console s @ [GaveWinnerRole w]\<rparr>
          else s\<lparr>console := console s @ [FailedToGiveWinnerRole w]\<rparr>)"

text \<open>
  Lines 720-785. The announcement carries the mention line (the first three ids), the
  ranked entries and the total; its wording is not modelled.
\<close>

definition sendLeaderboard :: "cycle_env \<Rightarrow> bot_state \<Rightarrow> bot_state" where
  "sendLeaderboard e s =
     (case channel_fetch e of
        FetchThrows \<Rightarrow> s\<lparr>console := console s @ [ErrorSendingLeaderboard]\<rparr>
      | FetchNull \<Rightarrow> s\<lparr>console := console s @ [LeaderboardChannelNotFound]\<rparr>
      | FetchFound \<Rightarrow>
          (let s1 = removeWinnerRole e s;
               sorted = ranked (leaderboard s1)
           in case sorted of
                [] \<Rightarrow>
                  if send_ok e then s1\<lparr>sent := sent s1 @ [NoMessagesRecorded]\<rparr>
                  else s1\<lparr>console := console s1 @ [ErrorSendingLeaderboard]\<rparr>
              | (winnerId, n) # rest \<Rightarrow>
                  if send_ok e
                  then
                    (let s2 = s1\<lparr>sent := sent s1 @
                                 [Winners (map fst (take 3 sorted)) sorted
                                    (sum_list (map snd (leaderboard s1)))]\<rparr>;
                         s3 = giveWinnerRole e winnerId s2;
                         s4 = saveData True (save_env e) (s3\<lparr>leaderboard := []\<rparr>)
                     in s4\<lparr>console := console s4 @ [SentAndReset]\<rparr>)
                  else s1\<lparr>console := console s1 @ [ErrorSendingLeaderboard]\<rparr>))"

text \<open>The rank-1 entry of the ranked view, when there is one.\<close>

definition top1 :: "tally \<Rightarrow> user_id option" where
  "top1 lb = (case ranked lb of [] \<Rightarrow> None | (w, n) # rest \<Rightarrow> Some w)"

section \<open>The cooldown tracker\<close>

text \<open>
  \<^verbatim>\<open>cooldowns\<close> is a \<^verbatim>\<open>Map\<close> from the key \<^verbatim>\<open>`${userId}-${commandName}`\<close> to the time of
  the last accepted call, in milliseconds. \<^verbatim>\<open>checkCooldown\<close> returns \<^verbatim>\<open>false\<close> when the
  command may run and the seconds left otherwise. The user id is \<^verbatim>\<open>msg.author.id\<close>, a
  snowflake: decimal digits and no hyphen, so the first hyphen of a key ends the user id
  and two pairs of user and command share a key only when they are the same pair
  (\<open>cooldown_key_inj\<close>).
\<close>

type_synonym cooldown_map = "string \<rightharpoonup> int"

datatype cooldown_result = NoCooldown | TimeLeft real

definition COOLDOWN_TIME :: int where
  "COOLDOWN_TIME = 3000"

definition cooldown_key :: "user_id \<Rightarrow> string \<Rightarrow> string" where
  "cooldown_key userId commandName = userId @ ''-'' @ commandName"

text \<open>Lines 800-814; the first argument is the value of \<^verbatim>\<open>Date.now()\<close>.\<close>

definition checkCooldown ::
  "int \<Rightarrow> user_id \<Rightarrow> string \<Rightarrow> cooldown_map \<Rightarrow> cooldown_result \<times> cooldown_map" where
  "checkCooldown now userId commandName cooldowns =
     (let key = cooldown_key userId commandName
      in case cooldowns key of
           Some stamp \<Rightarrow>
             (let expirationTime = stamp + COOLDOWN_TIME
              in if now < expirationTime
                 then (TimeLeft (real_of_int (expirationTime - now) / 1000), cooldowns)
                 else (NoCooldown, cooldowns(key \<mapsto> now)))
         | None \<Rightarrow> (NoCooldown, cooldowns(key \<mapsto> now)))"

section \<open>The mute ledger\<close>

text \<open>
  \<^verbatim>\<open>mutedUserRoles\<close> is a \<^verbatim>\<open>Map\<close> from a user id to the role ids stored when the user was
  muted. Of the guild the handlers read and write: its id (which is also the id of the
  \<^verbatim>\<open>@everyone\<close> role), \<^verbatim>\<open>guild.roles.cache\<close>, and for each member the ids of
  \<^verbatim>\<open>member.roles.cache\<close>. After \<^verbatim>\<open>member.roles.set(ids)\<close> that cache holds the given roles
  and \<^verbatim>\<open>@everyone\<close>.
\<close>

record role =
  role_id :: string
  role_name :: string

record mod_state =
  mutedUserRoles :: "user_id \<rightharpoonup> string list"
  guild_id :: string
  roles_cache :: "role list"
  member_roles :: "user_id \<Rightarrow> string list"

text \<open>
  What a moderation handler meets outside the program. For the chat commands: whether
  the author has the permission asked for, and the first mentioned member. For the HTTP
  endpoints (reached after \<^verbatim>\<open>requireAuth\<close>): whether the client has a guild, and the
  outcome of \<^verbatim>\<open>guild.members.fetch\<close>. For both: the outcome of \<^verbatim>\<open>guild.roles.create\<close> (the
  new role's id, or nothing when it throws), whether \<^verbatim>\<open>member.roles.set\<close> succeeds, and
  whether the statements that follow it inside the same \<^verbatim>\<open>try\<close> (the reply, building
  the log embed) complete without throwing.
\<close>

record mod_env =
  has_permission :: bool
  mentioned :: "user_id option"
  guild_found :: bool
  member_found :: fetch
  create_role :: "string option"
  roles_set_ok :: bool
  after_ok :: bool

datatype reply =
    NeedPermission
  | PleaseMention
  | AlreadyMuted
  | CouldntCreateRole
  | MutedReply nat
  | FailedToMute
  | NoMutedRole
  | WasntMuted
  | UnmutedReply nat
  | FailedToUnmute
  | ProvideNumber
  | DeletedReply int
  | FailedToDelete

datatype api_error =
    GuildNotFound
  | MemberNotFound
  | UserAlreadyMuted
  | UserWasntMuted
  | ChannelNotFound
  | AmountOutOfRange
  | PlatformError

text \<open>\<^verbatim>\<open>guild.roles.cache.find((r) => r.name === "Muted")\<close> and \<^verbatim>\<open>guild.roles.cache.get(id)\<close>.\<close>

definition find_muted :: "role list \<Rightarrow> role option" where
  "find_muted rs = List.find (\<lambda>r. role_name r = ''Muted'') rs"

definition roles_get :: "role list \<Rightarrow> string \<Rightarrow> role option" where
  "roles_get rs rid = List.find (\<lambda>r. role_id r = rid) rs"

text \<open>
  Lines 576-597 and 1049-1077: the restricted role, created when the guild has none. The
  loop that sets the permission overwrites of the channels catches its own errors and
  touches nothing of the state above. The result is the role's id and the state, or
  nothing when the creation throws.
\<close>

definition muteRole_or_create :: "mod_env \<Rightarrow> mod_state \<Rightarrow> (string \<times> mod_state) option" where
  "muteRole_or_create e s =
     (case find_muted (roles_cache s) of
        Some r \<Rightarrow> Some (role_id r, s)
      | None \<Rightarrow>
          (case create_role e of
             None \<Rightarrow> None
           | Some rid \<Rightarrow>
               Some (rid, s\<lparr>roles_cache :=
                              roles_cache s @ [\<lparr>role_id = rid, role_name = ''Muted''\<rparr>]\<rparr>)))"

text \<open>Lines 599-601 and 1083-1085: the member's role ids without \<^verbatim>\<open>@everyone\<close>.\<close>

definition userRoles :: "mod_state \<Rightarrow> user_id \<Rightarrow> string list" where
  "userRoles s m = filter (\<lambda>r. r \<noteq> guild_id s) (member_roles s m)"

text \<open>A \<^verbatim>\<open>member.roles.set(ids)\<close> that succeeds.\<close>

definition roles_set :: "user_id \<Rightarrow> string list \<Rightarrow> mod_state \<Rightarrow> mod_state" where
  "roles_set m ids s = s\<lparr>member_roles := (member_roles s)(m := ids @ [guild_id s])\<rparr>"

text \<open>Lines 1037-1110: the chat command \<^verbatim>\<open>mute\<close>.\<close>

definition mute_command :: "mod_env \<Rightarrow> mod_state \<Rightarrow> reply \<times> mod_state" where
  "mute_command e s =
     (if \<not> has_permission e then (NeedPermission, s)
      else case mentioned e of
        None \<Rightarrow> (PleaseMention, s)
      | Some m \<Rightarrow>
          if mutedUserRoles s m \<noteq> None then (AlreadyMuted, s)
          else
            (case muteRole_or_create e s of
               None \<Rightarrow> (CouldntCreateRole, s)
             | Some (muteRoleId, s1) \<Rightarrow>
                 (let stored = userRoles s1 m;
                      s2 = s1\<lparr>mutedUserRoles := (mutedUserRoles s1)(m \<mapsto> stored)\<rparr>
                  in if roles_set_ok e
                     then
                       (let s3 = roles_set m [muteRoleId] s2
                        in if after_ok e then (MutedReply (length stored), s3)
                           else (FailedToMute,
                                 s3\<lparr>mutedUserRoles := (mutedUserRoles s3)(m := None)\<rparr>))
                     else (FailedToMute,
                           s2\<lparr>mutedUserRoles := (mutedUserRoles s2)(m := None)\<rparr>))))"

text \<open>Lines 562-611: \<^verbatim>\<open>POST /api/moderation/mute\<close>.\<close>

definition api_mute :: "mod_env \<Rightarrow> user_id \<Rightarrow> mod_state \<Rightarrow> (api_error + nat) \<times> mod_state" where
  "api_mute e userId s =
     (if \<not> guild_found e then (Inl GuildNotFound, s)
      else case member_found e of
        FetchThrows \<Rightarrow> (Inl PlatformError, s)
      | FetchNull \<Rightarrow> (Inl MemberNotFound, s)
      | FetchFound \<Rightarrow>
          if mutedUserRoles s userId \<noteq> None then (Inl UserAlreadyMuted, s)
          else
            (case muteRole_or_create e s of
               None \<Rightarrow> (Inl PlatformError, s)
             | Some (muteRoleId, s1) \<Rightarrow>
                 (let stored = userRoles s1 userId;
                      s2 = s1\<lparr>mutedUserRoles := (mutedUserRoles s1)(userId \<mapsto> stored)\<rparr>
                  in if roles_set_ok e
                     then (Inr (length stored), roles_set userId [muteRoleId] s2)
                     else (Inl PlatformError, s2))))"

text \<open>
  Lines 630-633 and 1131-1134: the stored ids that still name a role of the guild and
  are not the restricted role. The endpoint may find no restricted role (the chat
  command has returned by then), and then filters on the first condition only.
\<close>

definition validRoles :: "role list \<Rightarrow> role option \<Rightarrow> string list \<Rightarrow> string list" where
  "validRoles cache muteRole storedRoles =
     filter (\<lambda>roleId.
        case roles_get cache roleId of
          None \<Rightarrow> False
        | Some r \<Rightarrow> (case muteRole of None \<Rightarrow> True | Some mr \<Rightarrow> role_id r \<noteq> role_id mr))
      storedRoles"

text \<open>Lines 1113-1155: the chat command \<^verbatim>\<open>unmute\<close>.\<close>

definition unmute_command :: "mod_env \<Rightarrow> mod_state \<Rightarrow> reply \<times> mod_state" where
  "unmute_command e s =
     (if \<not> has_permission e then (NeedPermission, s)
      else case mentioned e of
        None \<Rightarrow> (PleaseMention, s)
      | Some m \<Rightarrow>
          (case find_muted (roles_cache s) of
             None \<Rightarrow> (NoMutedRole, s)
           | Some muteRole \<Rightarrow>
               (case mutedUserRoles s m of
                  None \<Rightarrow> (WasntMuted, s)
                | Some storedRoles \<Rightarrow>
                    (let valid = validRoles (roles_cache s) (Some muteRole) storedRoles
                     in if roles_set_ok e
                        then
                          (let s1 = roles_set m valid s;
                               s2 = s1\<lparr>mutedUserRoles := (mutedUserRoles s1)(m := None)\<rparr>
                           in if after_ok e then (UnmutedReply (length valid), s2)
                              else (FailedToUnmute, s2))
                        else (FailedToUnmute, s)))))"

text \<open>Lines 613-643: \<^verbatim>\<open>POST /api/moderation/unmute\<close>.\<close>

definition api_unmute :: "mod_env \<Rightarrow> user_id \<Rightarrow> mod_state \<Rightarrow> (api_error + nat) \<times> mod_state" where
  "api_unmute e userId s =
     (if \<not> guild_found e then (Inl GuildNotFound, s)
      else case member_found e of
        FetchThrows \<Rightarrow> (Inl PlatformError, s)
      | FetchNull \<Rightarrow> (Inl MemberNotFound, s)
      | FetchFound \<Rightarrow>
          (case mutedUserRoles s userId of
             None \<Rightarrow> (Inl UserWasntMuted, s)
           | Some storedRoles \<Rightarrow>
               (let valid = validRoles (roles_cache s) (find_muted (roles_cache s)) storedRoles
                in if roles_set_ok e
                   then
                     (let s1 = roles_set userId valid s
                      in (Inr (length valid),
                          s1\<lparr>mutedUserRoles := (mutedUserRoles s1)(userId := None)\<rparr>))
                   else (Inl PlatformError, s))))"

text \<open>A guild and an environment to run the handlers on.\<close>

definition example_guild :: mod_state where
  "example_guild =
     \<lparr>mutedUserRoles = Map.empty, guild_id = ''g'',
       roles_cache = [\<lparr>role_id = ''r1'', role_name = ''Helper''\<rparr>,
                      \<lparr>role_id = ''r2'', role_name = ''Artist''\<rparr>,
                      \<lparr>role_id = ''m'', role_name = ''Muted''\<rparr>],
       member_roles = (\<lambda>u. [''r1'', ''r2'', ''g''])\<rparr>"

definition calls_succeed :: mod_env where
  "calls_succeed =
     \<lparr>has_permission = True, mentioned = Some ''u'', guild_found = True,
       member_found = FetchFound, create_role = Some ''m2'', roles_set_ok = True,
       after_ok = True\<rparr>"

section \<open>Clearing messages\<close>















section \<open>Facts about the counter store\<close>

lemma map_of_set_prop: "map_of (set_prop k v ps) = (map_of ps)(k \<mapsto> v)"
  by (induction ps) (auto simp: fun_eq_iff)

lemma map_of_recordActivity:
  "map_of (recordActivity u lb) = (map_of lb)(u \<mapsto> js_increment (count_of lb u))"
  by (auto simp: recordActivity_def count_of_def map_of_set_prop Let_def fun_eq_iff
      split: option.splits)

lemma leaderboard_saveData [simp]: "leaderboard (saveData force e s) = leaderboard s"
  by (simp add: saveData_def)

lemma leaderboard_count_message:
  "map_of (leaderboard (count_message e msg s)) =
     (if author_bot msg then map_of (leaderboard s)
      else (map_of (leaderboard s))
             (author_id msg \<mapsto> js_increment (count_of (leaderboard s) (author_id msg))))"
  by (simp add: count_message_def map_of_recordActivity)

text \<open>A run increments the count of \<open>u\<close> once for each counted message of \<open>u\<close>.\<close>

lemma count_messages_iterates:
  "map_of (leaderboard (count_messages evs s)) u =
     (if calls_for u evs = 0 then map_of (leaderboard s) u
      else Some ((js_increment ^^ calls_for u evs) (count_of (leaderboard s) u)))"
proof (induction evs arbitrary: s)
  case Nil
  then show ?case by (simp add: calls_for_def)
next
  case (Cons ev evs)
  obtain e msg where ev: "ev = (e, msg)" by (cases ev)
  let ?s1 = "count_message e msg s"
  have run: "map_of (leaderboard (count_messages (ev # evs) s)) u =
      (if calls_for u evs = 0 then map_of (leaderboard ?s1) u
       else Some ((js_increment ^^ calls_for u evs) (count_of (leaderboard ?s1) u)))"
    using Cons.IH [of ?s1] by (simp add: ev)
  show ?case
  proof (cases "\<not> author_bot msg \<and> author_id msg = u")
    case True
    have m1: "map_of (leaderboard ?s1) u = Some (js_increment (count_of (leaderboard s) u))"
      using True by (simp add: leaderboard_count_message)
    have c1: "count_of (leaderboard ?s1) u = js_increment (count_of (leaderboard s) u)"
      by (simp add: count_of_def m1)
    have n1: "calls_for u (ev # evs) = Suc (calls_for u evs)"
      using True by (simp add: calls_for_def ev)
    show ?thesis
      by (simp add: run m1 c1 n1 funpow_swap1)
  next
    case False
    have m1: "map_of (leaderboard ?s1) u = map_of (leaderboard s) u"
      using False by (auto simp: leaderboard_count_message)
    have c1: "count_of (leaderboard ?s1) u = count_of (leaderboard s) u"
      by (simp add: count_of_def m1)
    have n1: "calls_for u (ev # evs) = calls_for u evs"
      using False by (auto simp: calls_for_def ev)
    show ?thesis
      by (simp only: run m1 c1 n1)
  qed
qed

lemma js_increment_exact:
  "- (2 ^ 53) \<le> c \<Longrightarrow> c + int n \<le> 2 ^ 53 \<Longrightarrow> (js_increment ^^ n) c = c + int n"
proof (induction n arbitrary: c)
  case 0
  then show ?case by simp
next
  case (Suc n)
  from Suc.prems have step: "js_increment c = c + 1"
    by (simp add: js_increment_def)
  have "(js_increment ^^ n) (c + 1) = c + 1 + int n"
    using Suc.prems by (intro Suc.IH) simp_all
  then show ?case
    by (simp add: funpow_swap1 step)
qed

text \<open>
  Claim C1, as stated, fails where a count has reached \<open>2^53\<close>: a user with that count
  posts one message, and the count is still \<open>2^53\<close>, not the previous count plus one.
\<close>

theorem C1_count_stops_at_2_53:
  "map_of (leaderboard (count_messages
      [(\<lparr>now_guard = 1, write_ok = True, now_stamp = 1\<rparr>,
        \<lparr>author_id = ''a'', author_bot = False\<rparr>)]
      \<lparr>leaderboard = [(''a'', 9007199254740992)], lastSave = 0, written = [], winners = [],
        sent = [], console = []\<rparr>)) ''a'' = Some 9007199254740992
   \<and> calls_for ''a''
      [(\<lparr>now_guard = 1, write_ok = True, now_stamp = 1\<rparr>,
        \<lparr>author_id = ''a'', author_bot = False\<rparr>)] = 1
   \<and> (9007199254740992 :: int) = 2 ^ 53"
  by (simp add: count_message_def recordActivity_def js_increment_def saveData_def
      SAVE_INTERVAL_def calls_for_def)

text \<open>
  Claim C1, amended. For every run of the counting handler from any state: a user with
  no counted message in the run keeps exactly what it had, so a key absent before and
  never recorded stays absent and no key but the recorded users' changes; and a user
  with counted messages ends with the count it had before (0 when absent) plus the
  number of its counted messages, as long as the count before is at least \<open>-2^53\<close> and
  that sum is at most \<open>2^53\<close>.
\<close>

theorem C1_tally_counts_calls:
  assumes "calls_for u evs \<noteq> 0 \<longrightarrow>
      - (2 ^ 53) \<le> count_of (leaderboard s) u
      \<and> count_of (leaderboard s) u + int (calls_for u evs) \<le> 2 ^ 53"
  shows "map_of (leaderboard (count_messages evs s)) u =
     (if calls_for u evs = 0 then map_of (leaderboard s) u
      else Some (count_of (leaderboard s) u + int (calls_for u evs)))"
proof (cases "calls_for u evs = 0")
  case True
  then show ?thesis by (simp add: count_messages_iterates)
next
  case False
  with assms have "(js_increment ^^ calls_for u evs) (count_of (leaderboard s) u)
      = count_of (leaderboard s) u + int (calls_for u evs)"
    by (intro js_increment_exact) simp_all
  then show ?thesis using False by (simp add: count_messages_iterates)
qed

theorem C1_tally_counts_calls_witness:
  "map_of (leaderboard (count_messages
      [(\<lparr>now_guard = 1, write_ok = True, now_stamp = 1\<rparr>, \<lparr>author_id = ''a'', author_bot = False\<rparr>),
       (\<lparr>now_guard = 2, write_ok = True, now_stamp = 2\<rparr>, \<lparr>author_id = ''b'', author_bot = False\<rparr>),
       (\<lparr>now_guard = 3, write_ok = True, now_stamp = 3\<rparr>, \<lparr>author_id = ''c'', author_bot = True\<rparr>),
       (\<lparr>now_guard = 4, write_ok = True, now_stamp = 4\<rparr>, \<lparr>author_id = ''a'', author_bot = False\<rparr>)]
      \<lparr>leaderboard = [(''a'', 2), (''d'', 7)], lastSave = 0, written = [], winners = [],
        sent = [], console = []\<rparr>)) ''a'' = Some 4"
  by (subst C1_tally_counts_calls) (simp_all add: calls_for_def count_of_def)

text \<open>
  Claim C2. Whatever the value of \<open>lastSave\<close>: two unforced calls of \<open>saveData\<close> whose
  clock readings both lie less than 30 seconds after \<open>lastSave\<close> write nothing and leave
  the state as it was; two unforced calls whose guards read the clock less than 30
  seconds apart complete at most one write between them; and a forced call never stops at
  the guard: it goes to \<^verbatim>\<open>fs.writeFileSync\<close> for every value of the clock and of
  \<open>lastSave\<close>, and the write that returns stores the tally and sets \<open>lastSave\<close> to the
  clock read after it (a write that throws is caught and logged, lines 321-323).
\<close>

theorem C2_flush_coalesced:
  "(now_guard e1 - lastSave s < SAVE_INTERVAL \<and> now_guard e2 - lastSave s < SAVE_INTERVAL
      \<longrightarrow> saveData False e2 (saveData False e1 s) = s)
   \<and> (now_guard e1 \<le> now_stamp e1 \<and> now_guard e2 - now_guard e1 < SAVE_INTERVAL
      \<longrightarrow> length (written (saveData False e2 (saveData False e1 s)))
            \<le> length (written s) + 1)
   \<and> saveData True e s =
       (if write_ok e
        then s\<lparr>written := written s @ [leaderboard s], lastSave := now_stamp e\<rparr>
        else s\<lparr>console := console s @ [FailedToSave]\<rparr>)"
proof (intro conjI impI)
  assume "now_guard e1 - lastSave s < SAVE_INTERVAL \<and> now_guard e2 - lastSave s < SAVE_INTERVAL"
  then show "saveData False e2 (saveData False e1 s) = s"
    by (simp add: saveData_def)
next
  assume a: "now_guard e1 \<le> now_stamp e1 \<and> now_guard e2 - now_guard e1 < SAVE_INTERVAL"
  show "length (written (saveData False e2 (saveData False e1 s))) \<le> length (written s) + 1"
  proof (cases "now_guard e1 - lastSave s < SAVE_INTERVAL \<or> \<not> write_ok e1")
    case True
    then have "written (saveData False e1 s) = written s"
      by (auto simp: saveData_def)
    then show ?thesis
      by (simp add: saveData_def [of False e2])
  next
    case False
    then have w: "written (saveData False e1 s) = written s @ [leaderboard s]"
      and l: "lastSave (saveData False e1 s) = now_stamp e1"
      by (simp_all add: saveData_def)
    from a have "now_guard e2 - now_stamp e1 < SAVE_INTERVAL" by simp
    then have "saveData False e2 (saveData False e1 s) = saveData False e1 s"
      by (simp add: saveData_def [of False e2] l)
    then show ?thesis by (simp add: w)
  qed
next
  show "saveData True e s =
       (if write_ok e
        then s\<lparr>written := written s @ [leaderboard s], lastSave := now_stamp e\<rparr>
        else s\<lparr>console := console s @ [FailedToSave]\<rparr>)"
    by (simp add: saveData_def)
qed

theorem C2_flush_coalesced_witness:
  "length (written (saveData False \<lparr>now_guard = 50000, write_ok = True, now_stamp = 50002\<rparr>
      (saveData False \<lparr>now_guard = 40000, write_ok = True, now_stamp = 40001\<rparr>
        \<lparr>leaderboard = [(''a'', 2)], lastSave = 0, written = [], winners = [],
          sent = [], console = []\<rparr>))) \<le> 1
   \<and> saveData False \<lparr>now_guard = 20000, write_ok = True, now_stamp = 20001\<rparr>
      (saveData False \<lparr>now_guard = 10000, write_ok = True, now_stamp = 10001\<rparr>
        \<lparr>leaderboard = [(''a'', 2)], lastSave = 0, written = [], winners = [],
          sent = [], console = []\<rparr>)
     = \<lparr>leaderboard = [(''a'', 2)], lastSave = 0, written = [], winners = [],
          sent = [], console = []\<rparr>
   \<and> lastSave (saveData True \<lparr>now_guard = 10, write_ok = True, now_stamp = 11\<rparr>
        \<lparr>leaderboard = [(''a'', 2)], lastSave = 0, written = [], winners = [],
          sent = [], console = []\<rparr>) = 11"
  using
    C2_flush_coalesced [of "\<lparr>now_guard = 40000, write_ok = True, now_stamp = 40001\<rparr>"
      "\<lparr>leaderboard = [(''a'', 2)], lastSave = 0, written = [], winners = [],
          sent = [], console = []\<rparr>"
      "\<lparr>now_guard = 50000, write_ok = True, now_stamp = 50002\<rparr>"
      "\<lparr>now_guard = 10, write_ok = True, now_stamp = 11\<rparr>"]
    C2_flush_coalesced [of "\<lparr>now_guard = 10000, write_ok = True, now_stamp = 10001\<rparr>"
      "\<lparr>leaderboard = [(''a'', 2)], lastSave = 0, written = [], winners = [],
          sent = [], console = []\<rparr>"
      "\<lparr>now_guard = 20000, write_ok = True, now_stamp = 20001\<rparr>"
      "\<lparr>now_guard = 10, write_ok = True, now_stamp = 11\<rparr>"]
  by (simp add: SAVE_INTERVAL_def)

section \<open>Facts about the ranked view\<close>

lemma insert_sorted_insort:
  "insert_sorted by_count_desc x ys = insort_key (\<lambda>p. - snd p) x ys"
  by (induction ys) (auto simp: by_count_desc_def)

lemma js_sort_sort_key: "js_sort by_count_desc xs = sort_key (\<lambda>p. - snd p) xs"
proof -
  have "insert_sorted by_count_desc = insort_key (\<lambda>p. - snd p)"
    by (intro ext) (rule insert_sorted_insort)
  then show ?thesis by (simp add: js_sort_def sort_key_def)
qed

lemma js_sort_descending:
  "sorted_wrt (\<lambda>a b. snd b \<le> snd a) (js_sort by_count_desc xs)"
proof -
  have "sorted (map (\<lambda>p. - snd p) (sort_key (\<lambda>p. - snd p) xs))"
    by (rule sorted_sort_key)
  then show ?thesis
    by (simp add: js_sort_sort_key sorted_map)
qed

lemma js_sort_Nil_iff: "js_sort by_count_desc xs = [] \<longleftrightarrow> xs = []"
proof -
  have "length (js_sort by_count_desc xs) = length xs"
    by (simp add: js_sort_sort_key)
  then show ?thesis by (metis length_0_conv)
qed

lemma ranked_Nil_iff: "ranked lb = [] \<longleftrightarrow> lb = []"
  by (simp add: ranked_def js_sort_Nil_iff)

text \<open>
  Claim C5. The ranked view is a function of the tally in its insertion order: it is
  the first ten entries of the stable sort by count, descending. The sorted list is a
  rearrangement of the tally, no count is followed by a larger one, and the entries of
  any one count stand in the order they have in the store. For the counts A 5, B 9, C 9,
  D 1 with B inserted before C the order is B, C, A, D (and C, B, A, D when C was
  inserted first).
\<close>

theorem C5_ranking_stable:
  "ranked lb = take 10 (sort_key (\<lambda>p. - snd p) lb)
   \<and> mset (js_sort by_count_desc lb) = mset lb
   \<and> sorted_wrt (\<lambda>a b. snd b \<le> snd a) (js_sort by_count_desc lb)
   \<and> filter (\<lambda>p. snd p = c) (js_sort by_count_desc lb) = filter (\<lambda>p. snd p = c) lb
   \<and> length (ranked lb) = min 10 (length lb)
   \<and> ranked [(''A'', 5), (''B'', 9), (''C'', 9), (''D'', 1)]
       = [(''B'', 9), (''C'', 9), (''A'', 5), (''D'', 1)]
   \<and> ranked [(''A'', 5), (''C'', 9), (''B'', 9), (''D'', 1)]
       = [(''C'', 9), (''B'', 9), (''A'', 5), (''D'', 1)]"
proof (intro conjI)
  show "ranked lb = take 10 (sort_key (\<lambda>p. - snd p) lb)"
    by (simp add: ranked_def js_sort_sort_key)
  show "mset (js_sort by_count_desc lb) = mset lb"
    by (simp add: js_sort_sort_key)
  show "sorted_wrt (\<lambda>a b. snd b \<le> snd a) (js_sort by_count_desc lb)"
    by (rule js_sort_descending)
  have "filter (\<lambda>p. - snd p = - c) (sort_key (\<lambda>p. - snd p) lb)
      = filter (\<lambda>p. - snd p = - c) lb"
    by (rule sort_key_stable)
  then show "filter (\<lambda>p. snd p = c) (js_sort by_count_desc lb) = filter (\<lambda>p. snd p = c) lb"
    by (simp add: js_sort_sort_key)
  show "length (ranked lb) = min 10 (length lb)"
    by (simp add: ranked_def js_sort_sort_key min.commute)
  show "ranked [(''A'', 5), (''B'', 9), (''C'', 9), (''D'', 1)]
       = [(''B'', 9), (''C'', 9), (''A'', 5), (''D'', 1)]"
    by (simp add: ranked_def js_sort_def by_count_desc_def)
  show "ranked [(''A'', 5), (''C'', 9), (''B'', 9), (''D'', 1)]
       = [(''C'', 9), (''B'', 9), (''A'', 5), (''D'', 1)]"
    by (simp add: ranked_def js_sort_def by_count_desc_def)
qed

section \<open>Facts about the cycle\<close>

lemma strip_members_fields:
  "leaderboard (strip_members ok ms s) = leaderboard s"
  "lastSave (strip_members ok ms s) = lastSave s"
  "written (strip_members ok ms s) = written s"
  "sent (strip_members ok ms s) = sent s"
  by (induction ms arbitrary: s) simp_all

lemma strip_members_winners:
  "winners (strip_members ok ms s) = filter (\<lambda>w. \<not> (w \<in> set ms \<and> ok w)) (winners s)"
proof (induction ms arbitrary: s)
  case Nil
  then show ?case by simp
next
  case (Cons m ms)
  show ?case
  proof (cases "ok m")
    case True
    have "filter (\<lambda>w. \<not> (w \<in> set ms \<and> ok w)) (removeAll m (winners s))
        = filter (\<lambda>w. \<not> (w \<in> set (m # ms) \<and> ok w)) (winners s)"
      using True by (auto simp: removeAll_filter_not_eq intro: filter_cong)
    then show ?thesis using True by (simp add: Cons.IH)
  next
    case False
    have "filter (\<lambda>w. \<not> (w \<in> set ms \<and> ok w)) (winners s)
        = filter (\<lambda>w. \<not> (w \<in> set (m # ms) \<and> ok w)) (winners s)"
      using False by (auto intro: filter_cong)
    then show ?thesis using False by (simp add: Cons.IH)
  qed
qed

lemma removeWinnerRole_fields:
  "leaderboard (removeWinnerRole e s) = leaderboard s"
  "lastSave (removeWinnerRole e s) = lastSave s"
  "written (removeWinnerRole e s) = written s"
  "sent (removeWinnerRole e s) = sent s"
  by (simp_all add: removeWinnerRole_def strip_members_fields split: fetch.split)

lemma removeWinnerRole_winners:
  "winners (removeWinnerRole e s) =
     (if role_fetch e = FetchFound then filter (\<lambda>w. \<not> remove_ok e w) (winners s)
      else winners s)"
proof -
  have "filter (\<lambda>w. \<not> (w \<in> set (winners s) \<and> remove_ok e w)) (winners s)
      = filter (\<lambda>w. \<not> remove_ok e w) (winners s)"
    by (auto intro: filter_cong)
  then show ?thesis
    by (simp add: removeWinnerRole_def strip_members_winners split: fetch.split)
qed

lemma removeWinnerRole_subset: "set (winners (removeWinnerRole e s)) \<subseteq> set (winners s)"
  by (auto simp: removeWinnerRole_winners)

lemma giveWinnerRole_fields:
  "leaderboard (giveWinnerRole e w s) = leaderboard s"
  "lastSave (giveWinnerRole e w s) = lastSave s"
  "written (giveWinnerRole e w s) = written s"
  "sent (giveWinnerRole e w s) = sent s"
  by (simp_all add: giveWinnerRole_def split: fetch.split)

lemma sendLeaderboard_empty:
  assumes "leaderboard s = []"
  shows "sendLeaderboard e s =
     (case channel_fetch e of
        FetchThrows \<Rightarrow> s\<lparr>console := console s @ [ErrorSendingLeaderboard]\<rparr>
      | FetchNull \<Rightarrow> s\<lparr>console := console s @ [LeaderboardChannelNotFound]\<rparr>
      | FetchFound \<Rightarrow>
          if send_ok e
          then (removeWinnerRole e s)\<lparr>sent := sent s @ [NoMessagesRecorded]\<rparr>
          else (removeWinnerRole e s)
                 \<lparr>console := console (removeWinnerRole e s) @ [ErrorSendingLeaderboard]\<rparr>)"
proof -
  have "ranked (leaderboard (removeWinnerRole e s)) = []"
    using assms by (simp add: removeWinnerRole_fields ranked_Nil_iff)
  then show ?thesis
    by (simp add: sendLeaderboard_def Let_def removeWinnerRole_fields split: fetch.split)
qed

lemma sendLeaderboard_nonempty:
  assumes "ranked (leaderboard s) = (w, n) # rest"
  shows "sendLeaderboard e s =
     (case channel_fetch e of
        FetchThrows \<Rightarrow> s\<lparr>console := console s @ [ErrorSendingLeaderboard]\<rparr>
      | FetchNull \<Rightarrow> s\<lparr>console := console s @ [LeaderboardChannelNotFound]\<rparr>
      | FetchFound \<Rightarrow>
          if send_ok e
          then
            (let s1 = removeWinnerRole e s;
                 s2 = s1\<lparr>sent := sent s @
                         [Winners (map fst (take 3 ((w, n) # rest))) ((w, n) # rest)
                            (sum_list (map snd (leaderboard s)))]\<rparr>;
                 s3 = giveWinnerRole e w s2;
                 s4 = saveData True (save_env e) (s3\<lparr>leaderboard := []\<rparr>)
             in s4\<lparr>console := console s4 @ [SentAndReset]\<rparr>)
          else (removeWinnerRole e s)
                 \<lparr>console := console (removeWinnerRole e s) @ [ErrorSendingLeaderboard]\<rparr>)"
proof -
  have "ranked (leaderboard (removeWinnerRole e s)) = (w, n) # rest"
    using assms by (simp add: removeWinnerRole_fields)
  then show ?thesis
    by (simp add: sendLeaderboard_def Let_def removeWinnerRole_fields split: fetch.split)
qed

lemma saveData_fields:
  "sent (saveData force fe s) = sent s"
  "winners (saveData force fe s) = winners s"
  by (simp_all add: saveData_def)

lemma saveData_forced_written:
  "written (saveData True fe s) = (if write_ok fe then written s @ [leaderboard s] else written s)"
  "lastSave (saveData True fe s) = (if write_ok fe then now_stamp fe else lastSave s)"
  by (simp_all add: saveData_def)

lemma ranked_cases:
  obtains (empty) "lb = []" | (top) w n rest where "ranked lb = (w, n) # rest"
proof (cases "ranked lb")
  case Nil
  then show ?thesis using empty by (simp add: ranked_Nil_iff)
next
  case (Cons p rest)
  then show ?thesis using top [of "fst p" "snd p" rest] by simp
qed

text \<open>
  Claim C3. When the tally is not empty and the platform calls of the cycle succeed
  (channel and role are found, every removal, the send, the fetch of the member and the
  grant go through), then after \<open>sendLeaderboard\<close> the tally is empty and was handed to a
  forced save (the write that returns stores the empty tally and sets \<open>lastSave\<close>), the
  strip step has taken the reward role from every member who held it, and the holder
  of the reward role is the rank-1 entry of the ranked view.
\<close>

theorem C3_cycle_resets_and_rewards:
  assumes "leaderboard s \<noteq> []"
    and "channel_fetch e = FetchFound" and "role_fetch e = FetchFound"
    and "\<forall>m. remove_ok e m" and "send_ok e"
    and "\<forall>u. member_fetch e u = FetchFound" and "add_ok e"
  shows "\<exists>w. top1 (leaderboard s) = Some w
      \<and> leaderboard (sendLeaderboard e s) = []
      \<and> written (sendLeaderboard e s) =
          (if write_ok (save_env e) then written s @ [[]] else written s)
      \<and> lastSave (sendLeaderboard e s) =
          (if write_ok (save_env e) then now_stamp (save_env e) else lastSave s)
      \<and> winners (removeWinnerRole e s) = []
      \<and> winners (sendLeaderboard e s) = [w]"
proof -
  from assms(1) obtain w n rest where r: "ranked (leaderboard s) = (w, n) # rest"
    by (cases "leaderboard s" rule: ranked_cases) auto
  define s2 where "s2 = (removeWinnerRole e s)\<lparr>sent := sent s @
      [Winners (map fst (take 3 ((w, n) # rest))) ((w, n) # rest)
         (sum_list (map snd (leaderboard s)))]\<rparr>"
  define s3 where "s3 = giveWinnerRole e w s2"
  define s4 where "s4 = saveData True (save_env e) (s3\<lparr>leaderboard := []\<rparr>)"
  have run: "sendLeaderboard e s = s4\<lparr>console := console s4 @ [SentAndReset]\<rparr>"
    using assms(2,5) by (simp add: sendLeaderboard_nonempty [OF r] Let_def s2_def s3_def s4_def)
  have stripped: "winners (removeWinnerRole e s) = []"
    using assms(3,4) by (simp add: removeWinnerRole_winners)
  have w2: "winners s2 = []"
    by (simp add: s2_def stripped)
  have w3: "winners s3 = [w]"
    using assms(6,7) by (simp add: s3_def giveWinnerRole_def w2)
  have f3: "written s3 = written s" "lastSave s3 = lastSave s"
    by (simp_all add: s3_def giveWinnerRole_fields s2_def removeWinnerRole_fields)
  have "top1 (leaderboard s) = Some w"
    by (simp add: top1_def r)
  moreover have "leaderboard (sendLeaderboard e s) = []"
    by (simp add: run s4_def)
  moreover have "written (sendLeaderboard e s) =
      (if write_ok (save_env e) then written s @ [[]] else written s)"
    by (simp add: run s4_def saveData_forced_written f3)
  moreover have "lastSave (sendLeaderboard e s) =
      (if write_ok (save_env e) then now_stamp (save_env e) else lastSave s)"
    by (simp add: run s4_def saveData_forced_written f3)
  moreover have "winners (sendLeaderboard e s) = [w]"
    by (simp add: run s4_def saveData_fields w3)
  ultimately show ?thesis using stripped by blast
qed

theorem C3_cycle_resets_and_rewards_witness:
  "leaderboard (sendLeaderboard
      \<lparr>channel_fetch = FetchFound, role_fetch = FetchFound, remove_ok = (\<lambda>m. True),
        send_ok = True, member_fetch = (\<lambda>u. FetchFound), add_ok = True,
        save_env = \<lparr>now_guard = 70, write_ok = True, now_stamp = 71\<rparr>\<rparr>
      \<lparr>leaderboard = [(''a'', 5), (''b'', 9)], lastSave = 0, written = [],
        winners = [''z'', ''b''], sent = [], console = []\<rparr>) = []
   \<and> winners (sendLeaderboard
      \<lparr>channel_fetch = FetchFound, role_fetch = FetchFound, remove_ok = (\<lambda>m. True),
        send_ok = True, member_fetch = (\<lambda>u. FetchFound), add_ok = True,
        save_env = \<lparr>now_guard = 70, write_ok = True, now_stamp = 71\<rparr>\<rparr>
      \<lparr>leaderboard = [(''a'', 5), (''b'', 9)], lastSave = 0, written = [],
        winners = [''z'', ''b''], sent = [], console = []\<rparr>) = [''b'']"
  using C3_cycle_resets_and_rewards
    [of "\<lparr>leaderboard = [(''a'', 5), (''b'', 9)], lastSave = 0, written = [],
        winners = [''z'', ''b''], sent = [], console = []\<rparr>"
      "\<lparr>channel_fetch = FetchFound, role_fetch = FetchFound, remove_ok = (\<lambda>m. True),
        send_ok = True, member_fetch = (\<lambda>u. FetchFound), add_ok = True,
        save_env = \<lparr>now_guard = 70, write_ok = True, now_stamp = 71\<rparr>\<rparr>"]
  by (simp add: top1_def ranked_def js_sort_def by_count_desc_def)

text \<open>
  Claim C4. When the tally is empty, \<open>sendLeaderboard\<close> leaves the tally, the snapshot
  file and \<open>lastSave\<close> as they were; the holders of the reward role afterwards are those
  the strip step of this cycle left (nobody is granted the role); and when the channel is
  found and the send goes through, what was announced is that no messages were recorded.
\<close>

theorem C4_cycle_empty_tally:
  assumes "leaderboard s = []"
  shows "leaderboard (sendLeaderboard e s) = []
      \<and> written (sendLeaderboard e s) = written s
      \<and> lastSave (sendLeaderboard e s) = lastSave s
      \<and> winners (sendLeaderboard e s) =
          (if channel_fetch e = FetchFound then winners (removeWinnerRole e s) else winners s)
      \<and> set (winners (sendLeaderboard e s)) \<subseteq> set (winners s)
      \<and> (channel_fetch e = FetchFound \<and> send_ok e
           \<longrightarrow> sent (sendLeaderboard e s) = sent s @ [NoMessagesRecorded])"
proof -
  note run = sendLeaderboard_empty [OF assms, of e]
  have "leaderboard (sendLeaderboard e s) = []"
    using assms by (simp add: run removeWinnerRole_fields split: fetch.split)
  moreover have "written (sendLeaderboard e s) = written s"
    by (simp add: run removeWinnerRole_fields split: fetch.split)
  moreover have "lastSave (sendLeaderboard e s) = lastSave s"
    by (simp add: run removeWinnerRole_fields split: fetch.split)
  moreover have w: "winners (sendLeaderboard e s) =
      (if channel_fetch e = FetchFound then winners (removeWinnerRole e s) else winners s)"
    by (simp add: run split: fetch.split)
  moreover have "set (winners (sendLeaderboard e s)) \<subseteq> set (winners s)"
    using removeWinnerRole_subset [of e s] by (simp add: w)
  moreover have "channel_fetch e = FetchFound \<and> send_ok e
      \<longrightarrow> sent (sendLeaderboard e s) = sent s @ [NoMessagesRecorded]"
    by (simp add: run)
  ultimately show ?thesis by blast
qed

theorem C4_cycle_empty_tally_witness:
  "sendLeaderboard
      \<lparr>channel_fetch = FetchFound, role_fetch = FetchFound, remove_ok = (\<lambda>m. True),
        send_ok = True, member_fetch = (\<lambda>u. FetchFound), add_ok = True,
        save_env = \<lparr>now_guard = 70, write_ok = True, now_stamp = 71\<rparr>\<rparr>
      \<lparr>leaderboard = [], lastSave = 5, written = [[(''a'', 1)]],
        winners = [''z''], sent = [], console = []\<rparr>
   = \<lparr>leaderboard = [], lastSave = 5, written = [[(''a'', 1)]],
        winners = [], sent = [NoMessagesRecorded], console = [RemovedWinnerRole ''z'']\<rparr>"
  using C4_cycle_empty_tally
    [of "\<lparr>leaderboard = [], lastSave = 5, written = [[(''a'', 1)]],
        winners = [''z''], sent = [], console = []\<rparr>"
      "\<lparr>channel_fetch = FetchFound, role_fetch = FetchFound, remove_ok = (\<lambda>m. True),
        send_ok = True, member_fetch = (\<lambda>u. FetchFound), add_ok = True,
        save_env = \<lparr>now_guard = 70, write_ok = True, now_stamp = 71\<rparr>\<rparr>"]
  by (simp add: sendLeaderboard_def removeWinnerRole_def ranked_def js_sort_def)

text \<open>
  Claim C10. When the fetch of the channel throws, or the channel is found and the send
  of the announcement throws, \<open>sendLeaderboard\<close> ends in its own catch (the last log line
  is the one of lines 782-784) with the tally, the snapshot file and \<open>lastSave\<close> as they
  were. And for every run: the tally, the file or \<open>lastSave\<close> differ afterwards only when
  the announcement of the winners was delivered.
\<close>

theorem C10_failure_before_reset:
  "(channel_fetch e = FetchThrows \<or> (channel_fetch e = FetchFound \<and> \<not> send_ok e)
      \<longrightarrow> leaderboard (sendLeaderboard e s) = leaderboard s
          \<and> written (sendLeaderboard e s) = written s
          \<and> lastSave (sendLeaderboard e s) = lastSave s
          \<and> (\<exists>pre. console (sendLeaderboard e s) = pre @ [ErrorSendingLeaderboard]))
   \<and> (leaderboard (sendLeaderboard e s) \<noteq> leaderboard s
        \<or> written (sendLeaderboard e s) \<noteq> written s
        \<or> lastSave (sendLeaderboard e s) \<noteq> lastSave s
      \<longrightarrow> (\<exists>top3 entries total.
            sent (sendLeaderboard e s) = sent s @ [Winners top3 entries total]))"
proof (cases "leaderboard s" rule: ranked_cases)
  case empty
  note run = sendLeaderboard_empty [OF empty, of e]
  have same: "leaderboard (sendLeaderboard e s) = leaderboard s"
    "written (sendLeaderboard e s) = written s"
    "lastSave (sendLeaderboard e s) = lastSave s"
    by (simp_all add: run removeWinnerRole_fields split: fetch.split)
  have "channel_fetch e = FetchThrows \<or> (channel_fetch e = FetchFound \<and> \<not> send_ok e)
      \<longrightarrow> (\<exists>pre. console (sendLeaderboard e s) = pre @ [ErrorSendingLeaderboard])"
    by (auto simp: run)
  then show ?thesis using same by simp
next
  case (top w n rest)
  note run = sendLeaderboard_nonempty [OF top, of e]
  show ?thesis
  proof (cases "channel_fetch e = FetchFound \<and> send_ok e")
    case True
    have "sent (sendLeaderboard e s) = sent s @
        [Winners (map fst (take 3 ((w, n) # rest))) ((w, n) # rest)
           (sum_list (map snd (leaderboard s)))]"
      using True by (simp add: run Let_def saveData_fields giveWinnerRole_fields)
    then show ?thesis using True by auto
  next
    case False
    then have same: "leaderboard (sendLeaderboard e s) = leaderboard s"
      "written (sendLeaderboard e s) = written s"
      "lastSave (sendLeaderboard e s) = lastSave s"
      by (auto simp: run removeWinnerRole_fields split: fetch.split)
    have "channel_fetch e = FetchThrows \<or> (channel_fetch e = FetchFound \<and> \<not> send_ok e)
        \<longrightarrow> (\<exists>pre. console (sendLeaderboard e s) = pre @ [ErrorSendingLeaderboard])"
      by (auto simp: run)
    then show ?thesis using same by simp
  qed
qed

theorem C10_failure_before_reset_witness:
  "sendLeaderboard
      \<lparr>channel_fetch = FetchFound, role_fetch = FetchFound, remove_ok = (\<lambda>m. True),
        send_ok = False, member_fetch = (\<lambda>u. FetchFound), add_ok = True,
        save_env = \<lparr>now_guard = 70, write_ok = True, now_stamp = 71\<rparr>\<rparr>
      \<lparr>leaderboard = [(''a'', 5), (''b'', 9)], lastSave = 5, written = [],
        winners = [''z''], sent = [], console = []\<rparr>
   = \<lparr>leaderboard = [(''a'', 5), (''b'', 9)], lastSave = 5, written = [],
        winners = [], sent = [],
        console = [RemovedWinnerRole ''z'', ErrorSendingLeaderboard]\<rparr>
   \<and> sendLeaderboard
      \<lparr>channel_fetch = FetchThrows, role_fetch = FetchFound, remove_ok = (\<lambda>m. True),
        send_ok = True, member_fetch = (\<lambda>u. FetchFound), add_ok = True,
        save_env = \<lparr>now_guard = 70, write_ok = True, now_stamp = 71\<rparr>\<rparr>
      \<lparr>leaderboard = [(''a'', 5), (''b'', 9)], lastSave = 5, written = [],
        winners = [''z''], sent = [], console = []\<rparr>
   = \<lparr>leaderboard = [(''a'', 5), (''b'', 9)], lastSave = 5, written = [],
        winners = [''z''], sent = [], console = [ErrorSendingLeaderboard]\<rparr>"
  using C10_failure_before_reset
    [of "\<lparr>channel_fetch = FetchFound, role_fetch = FetchFound, remove_ok = (\<lambda>m. True),
        send_ok = False, member_fetch = (\<lambda>u. FetchFound), add_ok = True,
        save_env = \<lparr>now_guard = 70, write_ok = True, now_stamp = 71\<rparr>\<rparr>"
      "\<lparr>leaderboard = [(''a'', 5), (''b'', 9)], lastSave = 5, written = [],
        winners = [''z''], sent = [], console = []\<rparr>"]
  by (simp add: sendLeaderboard_def removeWinnerRole_def ranked_def js_sort_def
      by_count_desc_def)

section \<open>Facts about the cooldown tracker\<close>

lemma cooldown_key_inj:
  assumes "CHR ''-'' \<notin> set u" and "CHR ''-'' \<notin> set u'"
    and "cooldown_key u c = cooldown_key u' c'"
  shows "u = u' \<and> c = c'"
proof -
  have cut: "takeWhile (\<lambda>ch. ch \<noteq> CHR ''-'') (cooldown_key v d) = v"
    if "CHR ''-'' \<notin> set v" for v d
  proof -
    have "takeWhile (\<lambda>ch. ch \<noteq> CHR ''-'') (v @ CHR ''-'' # d)
        = v @ takeWhile (\<lambda>ch. ch \<noteq> CHR ''-'') (CHR ''-'' # d)"
      using that by (intro takeWhile_append2) auto
    then show ?thesis by (simp add: cooldown_key_def)
  qed
  have "u = u'"
    using cut [OF assms(1), of c] cut [OF assms(2), of c'] assms(3) by simp
  then show ?thesis using assms(3) by (simp add: cooldown_key_def)
qed

lemma checkCooldown_other_keys:
  "k \<noteq> cooldown_key u c \<Longrightarrow> snd (checkCooldown now u c cooldowns) k = cooldowns k"
  by (simp add: checkCooldown_def Let_def split: option.split)

text \<open>
  Claim C8. For every user, command name, clock value and cooldown map: with no entry
  under the pair's key, or an entry at least 3000 ms old, \<open>checkCooldown\<close> allows the
  call and stores the current time under the key; with a younger entry it returns the
  time left in seconds, which is positive, and the map is not changed. So a refused call
  does not move the stamp: a later call at or after the end of the first window is
  allowed and stamps again. The entry is the pair's own: for user ids without a hyphen,
  another pair of user and command has another key, a call for one pair leaves the entry
  of the other as it is, and a pair with no entry is allowed whatever another pair did
  before.
\<close>

theorem C8_cooldown_window:
  "(cooldowns (cooldown_key u c) = None
      \<or> (\<exists>stamp. cooldowns (cooldown_key u c) = Some stamp \<and> COOLDOWN_TIME \<le> now - stamp)
     \<longrightarrow> checkCooldown now u c cooldowns
          = (NoCooldown, cooldowns(cooldown_key u c \<mapsto> now)))
   \<and> (cooldowns (cooldown_key u c) = Some stamp \<and> now - stamp < COOLDOWN_TIME
     \<longrightarrow> checkCooldown now u c cooldowns
          = (TimeLeft (real_of_int (stamp + 3000 - now) / 1000), cooldowns)
        \<and> 0 < real_of_int (stamp + 3000 - now) / 1000)
   \<and> (cooldowns (cooldown_key u c) = Some stamp \<and> now - stamp < COOLDOWN_TIME
        \<and> COOLDOWN_TIME \<le> later - stamp
     \<longrightarrow> checkCooldown later u c (snd (checkCooldown now u c cooldowns))
          = (NoCooldown, cooldowns(cooldown_key u c \<mapsto> later)))
   \<and> (CHR ''-'' \<notin> set u \<and> CHR ''-'' \<notin> set u' \<and> (u', c') \<noteq> (u, c)
     \<longrightarrow> cooldown_key u' c' \<noteq> cooldown_key u c
        \<and> snd (checkCooldown now u c cooldowns) (cooldown_key u' c')
            = cooldowns (cooldown_key u' c')
        \<and> (cooldowns (cooldown_key u' c') = None
             \<longrightarrow> fst (checkCooldown later u' c' (snd (checkCooldown now u c cooldowns)))
                  = NoCooldown))"
proof (intro conjI impI)
  assume "cooldowns (cooldown_key u c) = None
      \<or> (\<exists>stamp. cooldowns (cooldown_key u c) = Some stamp \<and> COOLDOWN_TIME \<le> now - stamp)"
  then show "checkCooldown now u c cooldowns
      = (NoCooldown, cooldowns(cooldown_key u c \<mapsto> now))"
    by (auto simp: checkCooldown_def Let_def)
next
  assume a: "cooldowns (cooldown_key u c) = Some stamp \<and> now - stamp < COOLDOWN_TIME"
  then show "checkCooldown now u c cooldowns
      = (TimeLeft (real_of_int (stamp + 3000 - now) / 1000), cooldowns)"
    by (auto simp: checkCooldown_def Let_def COOLDOWN_TIME_def)
  from a have "0 < stamp + 3000 - now"
    by (simp add: COOLDOWN_TIME_def)
  then show "0 < real_of_int (stamp + 3000 - now) / 1000"
    by simp
next
  assume a: "cooldowns (cooldown_key u c) = Some stamp \<and> now - stamp < COOLDOWN_TIME
      \<and> COOLDOWN_TIME \<le> later - stamp"
  then have "snd (checkCooldown now u c cooldowns) = cooldowns"
    by (auto simp: checkCooldown_def Let_def)
  then show "checkCooldown later u c (snd (checkCooldown now u c cooldowns))
      = (NoCooldown, cooldowns(cooldown_key u c \<mapsto> later))"
    using a by (auto simp: checkCooldown_def Let_def)
next
  assume a: "CHR ''-'' \<notin> set u \<and> CHR ''-'' \<notin> set u' \<and> (u', c') \<noteq> (u, c)"
  then show other: "cooldown_key u' c' \<noteq> cooldown_key u c"
    using cooldown_key_inj [of u' u c' c] by auto
  then show same: "snd (checkCooldown now u c cooldowns) (cooldown_key u' c')
      = cooldowns (cooldown_key u' c')"
    by (rule checkCooldown_other_keys)
  assume "cooldowns (cooldown_key u' c') = None"
  with same have "snd (checkCooldown now u c cooldowns) (cooldown_key u' c') = None"
    by simp
  then show "fst (checkCooldown later u' c' (snd (checkCooldown now u c cooldowns)))
      = NoCooldown"
    by (simp add: checkCooldown_def Let_def)
qed

theorem C8_cooldown_window_witness:
  "checkCooldown 5000 ''42'' ''kick'' Map.empty
     = (NoCooldown, [''42-kick'' \<mapsto> 5000])
   \<and> checkCooldown 6000 ''42'' ''kick'' [''42-kick'' \<mapsto> 5000]
     = (TimeLeft 2, [''42-kick'' \<mapsto> 5000])
   \<and> checkCooldown 8000 ''42'' ''kick''
       (snd (checkCooldown 6000 ''42'' ''kick'' [''42-kick'' \<mapsto> 5000]))
     = (NoCooldown, [''42-kick'' \<mapsto> 8000])
   \<and> fst (checkCooldown 5100 ''43'' ''kick''
       (snd (checkCooldown 5000 ''42'' ''kick'' Map.empty))) = NoCooldown
   \<and> fst (checkCooldown 5100 ''42'' ''ban''
       (snd (checkCooldown 5000 ''42'' ''kick'' Map.empty))) = NoCooldown"
  using C8_cooldown_window [where cooldowns = Map.empty and u = "''42''" and c = "''kick''"
      and now = 5000 and stamp = 5000 and later = 5100 and u' = "''43''" and c' = "''kick''"]
    C8_cooldown_window [where cooldowns = Map.empty and u = "''42''" and c = "''kick''"
      and now = 5000 and stamp = 5000 and later = 5100 and u' = "''42''" and c' = "''ban''"]
    C8_cooldown_window [where cooldowns = "[''42-kick'' \<mapsto> 5000]" and u = "''42''"
      and c = "''kick''" and now = 6000 and stamp = 5000 and later = 8000
      and u' = "''43''" and c' = "''kick''"]
  by (simp add: cooldown_key_def COOLDOWN_TIME_def checkCooldown_def)

section \<open>Facts about the mute ledger and the clear operations\<close>


lemma roles_get_None: "roles_get cache rid = None \<longleftrightarrow> rid \<notin> role_id ` set cache"
  by (auto simp: roles_get_def find_None_iff)

lemma validRoles_Some:
  "validRoles cache (Some mr) stored
     = filter (\<lambda>r. r \<in> role_id ` set cache \<and> r \<noteq> role_id mr) stored"
proof -
  have "(case roles_get cache rid of None \<Rightarrow> False
         | Some r \<Rightarrow> (case Some mr of None \<Rightarrow> True | Some x \<Rightarrow> role_id r \<noteq> role_id x))
        = (rid \<in> role_id ` set cache \<and> rid \<noteq> role_id mr)" for rid
  proof (cases "roles_get cache rid")
    case None
    then have "rid \<notin> role_id ` set cache"
      using roles_get_None [of cache rid] by blast
    then show ?thesis using None by simp
  next
    case (Some r)
    then have "role_id r = rid" "r \<in> set cache"
      by (auto simp: roles_get_def find_Some_iff)
    then show ?thesis using Some by auto
  qed
  then show ?thesis by (simp only: validRoles_def)
qed

lemma muteRole_or_create_keeps:
  "muteRole_or_create e s = Some (rid, s1) \<Longrightarrow>
     userRoles s1 u = userRoles s u \<and> mutedUserRoles s1 = mutedUserRoles s"
  by (auto simp: muteRole_or_create_def userRoles_def split: option.splits)

lemma mute_command_rollback:
  assumes "mentioned e = Some u" and "mutedUserRoles s u = None" and "\<not> roles_set_ok e"
  shows "mutedUserRoles (snd (mute_command e s)) u = None
      \<and> member_roles (snd (mute_command e s)) = member_roles s"
  using assms
  by (auto simp: mute_command_def muteRole_or_create_def Let_def split: option.splits)

text \<open>
  Claim C6, as stated, fails in its second half: the unmute does not apply exactly the
  stored role set minus the restricted role. Member \<open>u\<close> holds \<open>r1\<close> and \<open>r2\<close> and is
  muted, which stores both; role \<open>r2\<close> is then deleted from the guild; the unmute applies
  \<open>r1\<close> alone, where the stored set minus the restricted role is \<open>r1\<close> and \<open>r2\<close>.
\<close>

theorem C6_unmute_drops_deleted_roles:
  "fst (mute_command calls_succeed example_guild) = MutedReply 2
   \<and> mutedUserRoles (snd (mute_command calls_succeed example_guild)) ''u''
       = Some [''r1'', ''r2'']
   \<and> member_roles (snd (unmute_command calls_succeed
        ((snd (mute_command calls_succeed example_guild))
           \<lparr>roles_cache := [\<lparr>role_id = ''r1'', role_name = ''Helper''\<rparr>,
                            \<lparr>role_id = ''m'', role_name = ''Muted''\<rparr>]\<rparr>))) ''u''
       = [''r1'', ''g'']
   \<and> filter (\<lambda>r. r \<noteq> ''m'') [''r1'', ''r2''] @ [''g''] \<noteq> [''r1'', ''g'']"
  by (simp add: mute_command_def unmute_command_def example_guild_def calls_succeed_def
      muteRole_or_create_def find_muted_def userRoles_def roles_set_def validRoles_def
      roles_get_def)

text \<open>
  Claim C6, amended. For every user \<open>u\<close> present in the ledger, a further mute of \<open>u\<close>
  leaves the whole state, and so the stored role set, as it is, and with the permission
  (chat) or the member at hand (endpoint) it is answered as already muted. A mute that
  succeeds stores the member's role ids without \<^verbatim>\<open>@everyone\<close>. An unmute whose
  \<^verbatim>\<open>member.roles.set\<close> succeeds applies the stored ids that still name a role of the
  guild and are not the restricted role, in their stored order, and deletes the ledger
  entry.
\<close>

theorem C6_mute_ledger:
  "(mutedUserRoles s u = Some stored \<and> mentioned e = Some u
      \<longrightarrow> snd (mute_command e s) = s
        \<and> (has_permission e \<longrightarrow> mute_command e s = (AlreadyMuted, s)))
   \<and> (mutedUserRoles s u = Some stored
      \<longrightarrow> snd (api_mute e u s) = s
        \<and> (guild_found e \<and> member_found e = FetchFound
             \<longrightarrow> api_mute e u s = (Inl UserAlreadyMuted, s)))
   \<and> (mentioned e = Some u \<and> mute_command e s = (MutedReply n, s')
      \<longrightarrow> mutedUserRoles s' u = Some (filter (\<lambda>r. r \<noteq> guild_id s) (member_roles s u)))
   \<and> (api_mute e u s = (Inr n, s')
      \<longrightarrow> mutedUserRoles s' u = Some (filter (\<lambda>r. r \<noteq> guild_id s) (member_roles s u)))
   \<and> (mutedUserRoles s u = Some stored \<and> has_permission e \<and> mentioned e = Some u
        \<and> find_muted (roles_cache s) = Some mr \<and> roles_set_ok e
      \<longrightarrow> member_roles (snd (unmute_command e s)) u
            = filter (\<lambda>r. r \<in> role_id ` set (roles_cache s) \<and> r \<noteq> role_id mr) stored
              @ [guild_id s]
        \<and> mutedUserRoles (snd (unmute_command e s)) u = None)
   \<and> (mutedUserRoles s u = Some stored \<and> guild_found e \<and> member_found e = FetchFound
        \<and> find_muted (roles_cache s) = Some mr \<and> roles_set_ok e
      \<longrightarrow> member_roles (snd (api_unmute e u s)) u
            = filter (\<lambda>r. r \<in> role_id ` set (roles_cache s) \<and> r \<noteq> role_id mr) stored
              @ [guild_id s]
        \<and> mutedUserRoles (snd (api_unmute e u s)) u = None)"
proof (intro conjI)
  show "mutedUserRoles s u = Some stored \<and> mentioned e = Some u
      \<longrightarrow> snd (mute_command e s) = s
        \<and> (has_permission e \<longrightarrow> mute_command e s = (AlreadyMuted, s))"
    by (simp add: mute_command_def)
  show "mutedUserRoles s u = Some stored
      \<longrightarrow> snd (api_mute e u s) = s
        \<and> (guild_found e \<and> member_found e = FetchFound
             \<longrightarrow> api_mute e u s = (Inl UserAlreadyMuted, s))"
    by (simp add: api_mute_def split: fetch.split)
  have "mentioned e = Some u \<and> mute_command e s = (MutedReply n, s')
      \<longrightarrow> mutedUserRoles s' u = Some (userRoles s u)"
    by (auto simp: mute_command_def roles_set_def Let_def
        split: if_splits option.splits prod.splits dest: muteRole_or_create_keeps)
  then show "mentioned e = Some u \<and> mute_command e s = (MutedReply n, s')
      \<longrightarrow> mutedUserRoles s' u = Some (filter (\<lambda>r. r \<noteq> guild_id s) (member_roles s u))"
    by (simp add: userRoles_def)
  have "api_mute e u s = (Inr n, s') \<longrightarrow> mutedUserRoles s' u = Some (userRoles s u)"
    by (auto simp: api_mute_def roles_set_def Let_def
        split: if_splits option.splits prod.splits fetch.splits
        dest: muteRole_or_create_keeps)
  then show "api_mute e u s = (Inr n, s')
      \<longrightarrow> mutedUserRoles s' u = Some (filter (\<lambda>r. r \<noteq> guild_id s) (member_roles s u))"
    by (simp add: userRoles_def)
  show "mutedUserRoles s u = Some stored \<and> has_permission e \<and> mentioned e = Some u
        \<and> find_muted (roles_cache s) = Some mr \<and> roles_set_ok e
      \<longrightarrow> member_roles (snd (unmute_command e s)) u
            = filter (\<lambda>r. r \<in> role_id ` set (roles_cache s) \<and> r \<noteq> role_id mr) stored
              @ [guild_id s]
        \<and> mutedUserRoles (snd (unmute_command e s)) u = None"
    by (simp add: unmute_command_def validRoles_Some roles_set_def Let_def)
  show "mutedUserRoles s u = Some stored \<and> guild_found e \<and> member_found e = FetchFound
        \<and> find_muted (roles_cache s) = Some mr \<and> roles_set_ok e
      \<longrightarrow> member_roles (snd (api_unmute e u s)) u
            = filter (\<lambda>r. r \<in> role_id ` set (roles_cache s) \<and> r \<noteq> role_id mr) stored
              @ [guild_id s]
        \<and> mutedUserRoles (snd (api_unmute e u s)) u = None"
    by (simp add: api_unmute_def validRoles_Some roles_set_def Let_def)
qed

theorem C6_mute_ledger_witness:
  "mute_command calls_succeed (snd (mute_command calls_succeed example_guild))
     = (AlreadyMuted, snd (mute_command calls_succeed example_guild))
   \<and> mutedUserRoles (snd (mute_command calls_succeed example_guild)) ''u''
     = Some [''r1'', ''r2'']
   \<and> member_roles (snd (unmute_command calls_succeed
        (snd (mute_command calls_succeed example_guild)))) ''u'' = [''r1'', ''r2'', ''g'']
   \<and> mutedUserRoles (snd (unmute_command calls_succeed
        (snd (mute_command calls_succeed example_guild)))) ''u'' = None"
  using C6_mute_ledger
    [of "snd (mute_command calls_succeed example_guild)" "''u''" "[''r1'', ''r2'']"
      calls_succeed 2 "snd (mute_command calls_succeed example_guild)"
      "\<lparr>role_id = ''m'', role_name = ''Muted''\<rparr>"]
  by (simp add: mute_command_def unmute_command_def example_guild_def calls_succeed_def
      muteRole_or_create_def find_muted_def userRoles_def roles_set_def validRoles_def
      roles_get_def)

text \<open>
  Claim C7 holds for the chat command (\<open>mute_command_rollback\<close>) and fails for the
  endpoint, which has no rollback in its catch (lines 607-610): when \<^verbatim>\<open>member.roles.set\<close>
  throws, \<open>u\<close> stays in the ledger with the roles it still holds, while the chat command
  on the same input leaves the ledger without \<open>u\<close>.
\<close>

theorem C7_api_mute_no_rollback:
  "api_mute (calls_succeed\<lparr>roles_set_ok := False\<rparr>) ''u'' example_guild
     = (Inl PlatformError,
        example_guild\<lparr>mutedUserRoles := [''u'' \<mapsto> [''r1'', ''r2'']]\<rparr>)
   \<and> member_roles (snd (api_mute (calls_succeed\<lparr>roles_set_ok := False\<rparr>) ''u'' example_guild))
        ''u'' = [''r1'', ''r2'', ''g'']
   \<and> mute_command (calls_succeed\<lparr>roles_set_ok := False\<rparr>) example_guild
     = (FailedToMute, example_guild)"
  by (simp add: mute_command_def api_mute_def example_guild_def calls_succeed_def
      muteRole_or_create_def find_muted_def userRoles_def roles_set_def)





end
